theory Spec2Isabelle
  imports Main
begin

section \<open>Python strings\<close>

text \<open>
  A Python \<^verbatim>\<open>str\<close> is a sequence of Unicode code points. A code point is modelled as an
  integer (as \<^verbatim>\<open>ord\<close> gives it) and a string as a list of them, so that \<^verbatim>\<open>str.strip\<close> can see the
  non-ASCII white space and the JSON decoder can produce the code points of
  \<^verbatim>\<open>\uXXXX\<close> escapes. ASCII literals of the source are written through \<open>ascii\<close>.
\<close>

type_synonym codepoint = int
type_synonym pystr = "codepoint list"

definition ascii :: "string \<Rightarrow> pystr" where
  "ascii s = map of_char s"

abbreviation ord :: "char \<Rightarrow> codepoint" where
  "ord c \<equiv> of_char c"

text \<open>Lines of a multi-line literal, joined by the newline character.\<close>

fun join_lines :: "string list \<Rightarrow> string" where
  "join_lines [] = []"
| "join_lines [l] = l"
| "join_lines (l # ls) = l @ CHR 0x0A # join_lines ls"

text \<open>
  The exceptions that the modelled code can raise. \<open>LookupError\<close> stands for Python's
  \<^verbatim>\<open>KeyError\<close> and \<^verbatim>\<open>IndexError\<close> (its two subclasses); \<open>FormatSyntaxNotModelled\<close> marks
  replacement fields using conversions, format specifications, attribute or index access,
  which the template of this program does not use.
\<close>

datatype exn = ValueError | LookupError | JSONDecodeError | FormatSyntaxNotModelled

subsection \<open>\<^verbatim>\<open>str.strip\<close>, \<^verbatim>\<open>str.find\<close>, \<^verbatim>\<open>str.rfind\<close> and slices\<close>

text \<open>
  \<^verbatim>\<open>str.strip()\<close> without argument removes the characters for which \<^verbatim>\<open>str.isspace\<close> holds:
  the ASCII white space (including the separators \<^verbatim>\<open>0x1C\<close> to \<^verbatim>\<open>0x1F\<close>) and the Unicode
  spaces.
\<close>

definition isspace :: "codepoint \<Rightarrow> bool" where
  "isspace c \<longleftrightarrow>
     (0x09 \<le> c \<and> c \<le> 0x0D) \<or> (0x1C \<le> c \<and> c \<le> 0x20) \<or> c = 0x85 \<or> c = 0xA0 \<or>
     c = 0x1680 \<or> (0x2000 \<le> c \<and> c \<le> 0x200A) \<or> c = 0x2028 \<or> c = 0x2029 \<or>
     c = 0x202F \<or> c = 0x205F \<or> c = 0x3000"

definition strip :: "pystr \<Rightarrow> pystr" where
  "strip s = rev (dropWhile isspace (rev (dropWhile isspace s)))"

text \<open>
  \<^verbatim>\<open>s.find(c)\<close> and \<^verbatim>\<open>s.rfind(c)\<close> for a one-character \<^verbatim>\<open>c\<close>: the index of the first and of
  the last occurrence, \<^verbatim>\<open>-1\<close> when there is none.
\<close>

definition str_find :: "codepoint \<Rightarrow> pystr \<Rightarrow> int" where
  "str_find c s =
     (if c \<in> set s then int (length (takeWhile (\<lambda>x. x \<noteq> c) s)) else - 1)"

definition str_rfind :: "codepoint \<Rightarrow> pystr \<Rightarrow> int" where
  "str_rfind c s =
     (if c \<in> set s
      then int (length s) - 1 - int (length (takeWhile (\<lambda>x. x \<noteq> c) (rev s)))
      else - 1)"

text \<open>
  The slice \<^verbatim>\<open>s[i:j]\<close> for indices that are not negative (the only slice of the program
  is taken under the guard \<^verbatim>\<open>start_idx >= 0 and end_idx > start_idx\<close>).
\<close>

definition str_slice :: "pystr \<Rightarrow> int \<Rightarrow> int \<Rightarrow> pystr" where
  "str_slice s i j = drop (nat i) (take (nat j) s)"

section \<open>\<^verbatim>\<open>str.format\<close> with keyword arguments\<close>

text \<open>
  \<^verbatim>\<open>take_field\<close> reads a replacement field up to the closing brace and returns the field
  text and what follows the brace; \<open>None\<close> when the string ends first.
\<close>

fun take_field :: "pystr \<Rightarrow> (pystr \<times> pystr) option" where
  "take_field [] = None"
| "take_field (c # cs) =
     (if c = ord CHR ''}'' then Some ([], cs)
      else (case take_field cs of
              None \<Rightarrow> None
            | Some (f, rest) \<Rightarrow> Some (c # f, rest)))"

definition prepend :: "pystr \<Rightarrow> exn + pystr \<Rightarrow> exn + pystr" where
  "prepend xs r = (case r of Inl e \<Rightarrow> Inl e | Inr ys \<Rightarrow> Inr (xs @ ys))"

definition field_syntax_chars :: "codepoint set" where
  "field_syntax_chars = {ord CHR ''!'', ord CHR '':'', ord CHR ''.'', ord CHR ''[''}"

text \<open>
  \<^verbatim>\<open>template.format(**kw)\<close>: \<^verbatim>\<open>{{\<close> and \<^verbatim>\<open>}}\<close> are the escaped braces, \<^verbatim>\<open>{name}\<close> is replaced
  by the keyword argument of that name, inserted as it is (the arguments are strings, and
  what is inserted is not scanned again). A single brace without its partner raises
  \<^verbatim>\<open>ValueError\<close>; an empty or unknown field name raises \<^verbatim>\<open>IndexError\<close> or \<^verbatim>\<open>KeyError\<close>,
  as no positional argument is passed. The leftmost offending place decides.
\<close>

function str_format :: "pystr \<Rightarrow> (pystr \<times> pystr) list \<Rightarrow> exn + pystr" where
  "str_format [] kw = Inr []"
| "str_format (c # cs) kw =
     (if c = ord CHR ''{'' then
        (case cs of
           [] \<Rightarrow> Inl ValueError
         | d # ds \<Rightarrow>
             if d = ord CHR ''{'' then prepend [ord CHR ''{''] (str_format ds kw)
             else (case take_field cs of
                     None \<Rightarrow> Inl ValueError
                   | Some (f, rest) \<Rightarrow>
                       if ord CHR ''{'' \<in> set f then Inl ValueError
                       else if set f \<inter> field_syntax_chars \<noteq> {} then Inl FormatSyntaxNotModelled
                       else (case map_of kw f of
                               None \<Rightarrow> Inl LookupError
                             | Some v \<Rightarrow> prepend v (str_format rest kw))))
      else if c = ord CHR ''}'' then
        (case cs of
           [] \<Rightarrow> Inl ValueError
         | d # ds \<Rightarrow>
             if d = ord CHR ''}'' then prepend [ord CHR ''}''] (str_format ds kw)
             else Inl ValueError)
      else prepend [c] (str_format cs kw))"
  by pat_completeness auto

lemma take_field_shorter: "take_field cs = Some (f, rest) \<Longrightarrow> length rest < length cs"
  by (induction cs arbitrary: f rest) (auto split: if_splits option.splits)

termination str_format
proof (relation "measure (\<lambda>(t, kw). length t)")
  fix c :: codepoint and cs kw d ds x2 f rest
  assume "cs = d # ds" and "take_field cs = Some x2" and "(f, rest) = x2"
  then have "length rest < length cs"
    using take_field_shorter [of cs f rest] by simp
  then show "((rest, kw), c # cs, kw) \<in> measure (\<lambda>(t, kw). length t)"
    by simp
qed auto

section \<open>Python values and the JSON decoder\<close>

text \<open>
  What \<^verbatim>\<open>json.loads\<close> can return: \<^verbatim>\<open>None\<close>, booleans, integers, floats, strings, lists and
  dictionaries. A float is kept as the literal it was read from (the value is
  \<^verbatim>\<open>float\<close> of that literal; \<^verbatim>\<open>NaN\<close>, \<^verbatim>\<open>Infinity\<close> and \<^verbatim>\<open>-Infinity\<close> included), so that no
  floating-point arithmetic is needed. A dictionary is the list of its items in insertion
  order, with one item per key.
\<close>

datatype pyval =
    PyNone
  | PyBool bool
  | PyInt int
  | PyFloat pystr
  | PyStr pystr
  | PyList "pyval list"
  | PyDict "(pystr \<times> pyval) list"

text \<open>\<^verbatim>\<open>d[k] = v\<close>: a key already present keeps its place and takes the new value.\<close>

fun dict_setitem :: "(pystr \<times> pyval) list \<Rightarrow> pystr \<Rightarrow> pyval \<Rightarrow> (pystr \<times> pyval) list" where
  "dict_setitem [] k v = [(k, v)]"
| "dict_setitem ((k', v') # d) k v =
     (if k' = k then (k, v) # d else (k', v') # dict_setitem d k v)"

text \<open>\<^verbatim>\<open>dict(pairs)\<close>: the items are stored from left to right.\<close>

definition dict_of_pairs :: "(pystr \<times> pyval) list \<Rightarrow> (pystr \<times> pyval) list" where
  "dict_of_pairs pairs = foldl (\<lambda>d (k, v). dict_setitem d k v) [] pairs"

definition dict_get :: "(pystr \<times> pyval) list \<Rightarrow> pystr \<Rightarrow> pyval \<Rightarrow> pyval" where
  "dict_get d k dflt = (case map_of d k of None \<Rightarrow> dflt | Some v \<Rightarrow> v)"

subsection \<open>The decoder of the standard library\<close>

text \<open>
  \<^verbatim>\<open>json.loads\<close> with its default arguments (strict mode, no hooks), as the scanner of
  CPython reads a \<^verbatim>\<open>str\<close>. Every syntax error raises \<^verbatim>\<open>JSONDecodeError\<close>, whose message and
  position the program does not use: the scanning functions return \<open>None\<close> for it. The
  limits of the interpreter (recursion depth, the digit limit of integer conversion,
  memory) are not part of the model.

  White space between tokens is space, tab, line feed and carriage return.
\<close>

definition json_ws :: "codepoint \<Rightarrow> bool" where
  "json_ws c \<longleftrightarrow> c = 0x20 \<or> c = 0x09 \<or> c = 0x0A \<or> c = 0x0D"

definition skip_ws :: "pystr \<Rightarrow> pystr" where
  "skip_ws s = dropWhile json_ws s"

definition is_digit :: "codepoint \<Rightarrow> bool" where
  "is_digit c \<longleftrightarrow> 0x30 \<le> c \<and> c \<le> 0x39"

text \<open>The four hexadecimal digits of a \<^verbatim>\<open>\uXXXX\<close> escape.\<close>

definition hex_value :: "codepoint \<Rightarrow> int option" where
  "hex_value c =
     (if 0x30 \<le> c \<and> c \<le> 0x39 then Some (c - 0x30)
      else if 0x61 \<le> c \<and> c \<le> 0x66 then Some (c - 0x61 + 10)
      else if 0x41 \<le> c \<and> c \<le> 0x46 then Some (c - 0x41 + 10)
      else None)"

fun decode_uXXXX :: "pystr \<Rightarrow> int option" where
  "decode_uXXXX (a # b # c # d # rest) =
     (case (hex_value a, hex_value b, hex_value c, hex_value d) of
        (Some x, Some y, Some z, Some w) \<Rightarrow> Some (((x * 16 + y) * 16 + z) * 16 + w)
      | _ \<Rightarrow> None)"
| "decode_uXXXX _ = None"

definition backslash_escape :: "codepoint \<Rightarrow> codepoint option" where
  "backslash_escape e =
     (if e = ord CHR 0x22 then Some (ord CHR 0x22)
      else if e = ord CHR 0x5C then Some (ord CHR 0x5C)
      else if e = ord CHR ''/'' then Some (ord CHR ''/'')
      else if e = ord CHR ''b'' then Some 0x08
      else if e = ord CHR ''f'' then Some 0x0C
      else if e = ord CHR ''n'' then Some 0x0A
      else if e = ord CHR ''r'' then Some 0x0D
      else if e = ord CHR ''t'' then Some 0x09
      else None)"

definition emit :: "codepoint \<Rightarrow> (pystr \<times> pystr) option \<Rightarrow> (pystr \<times> pystr) option" where
  "emit c r = (case r of None \<Rightarrow> None | Some (s, rest) \<Rightarrow> Some (c # s, rest))"

text \<open>
  \<open>scan_escape\<close> reads what follows a backslash inside a string and returns the decoded
  character and the rest. A high surrogate followed by the escape of a low surrogate
  gives the one character of the pair; a high surrogate followed by another escape stays
  alone and the second escape is read on its own.
\<close>

definition scan_escape :: "pystr \<Rightarrow> (codepoint \<times> pystr) option" where
  "scan_escape s =
     (case s of
        [] \<Rightarrow> None
      | e # es \<Rightarrow>
          if e = ord CHR ''u'' then
            (case decode_uXXXX es of
               None \<Rightarrow> None
             | Some uni \<Rightarrow>
                 if 0xD800 \<le> uni \<and> uni \<le> 0xDBFF \<and>
                    take 2 (drop 4 es) = [ord CHR 0x5C, ord CHR ''u'']
                 then
                   (case decode_uXXXX (drop 6 es) of
                      None \<Rightarrow> None
                    | Some uni2 \<Rightarrow>
                        if 0xDC00 \<le> uni2 \<and> uni2 \<le> 0xDFFF
                        then Some (0x10000 + ((uni - 0xD800) * 1024 + (uni2 - 0xDC00)),
                                   drop 10 es)
                        else Some (uni, drop 4 es))
                 else Some (uni, drop 4 es))
          else
            (case backslash_escape e of
               None \<Rightarrow> None
             | Some x \<Rightarrow> Some (x, es)))"

lemma scan_escape_shorter: "scan_escape s = Some (x, rest) \<Longrightarrow> length rest < length s"
  by (auto simp: scan_escape_def split: list.splits if_splits option.splits)

text \<open>
  \<open>scanstring\<close> starts after the opening quote and returns the decoded string and what
  follows the closing quote. In strict mode a control character inside a string is an
  error.
\<close>

function scanstring :: "pystr \<Rightarrow> (pystr \<times> pystr) option" where
  "scanstring [] = None"
| "scanstring (c # cs) =
     (if c = ord CHR 0x22 then Some ([], cs)
      else if c = ord CHR 0x5C then
        (case scan_escape cs of
           None \<Rightarrow> None
         | Some (x, rest) \<Rightarrow> emit x (scanstring rest))
      else if c \<le> 0x1F then None
      else emit c (scanstring cs))"
  by pat_completeness auto
termination
  by (relation "measure length") (auto dest: scan_escape_shorter)

text \<open>
  Numbers: \<^verbatim>\<open>-?(0|[1-9][0-9]*)\<close>, then an optional fraction \<^verbatim>\<open>\.[0-9]+\<close> and an optional
  exponent \<^verbatim>\<open>[eE][-+]?[0-9]+\<close>; each part is matched as far as it goes. Without fraction and
  exponent the number is an \<^verbatim>\<open>int\<close>, otherwise a \<^verbatim>\<open>float\<close>.
\<close>

definition match_integer :: "pystr \<Rightarrow> (pystr \<times> pystr) option" where
  "match_integer s =
     (let (sign, t) = (case s of
                         [] \<Rightarrow> ([], s)
                       | c # t' \<Rightarrow> if c = ord CHR ''-'' then ([c], t') else ([], s))
      in case t of
           [] \<Rightarrow> None
         | d # ds \<Rightarrow>
             if d = ord CHR ''0'' then Some (sign @ [d], ds)
             else if is_digit d
               then Some (sign @ d # takeWhile is_digit ds, dropWhile is_digit ds)
             else None)"

definition match_frac :: "pystr \<Rightarrow> pystr \<times> pystr" where
  "match_frac s =
     (case s of
        c # d # t \<Rightarrow>
          if c = ord CHR ''.'' \<and> is_digit d
          then (c # d # takeWhile is_digit t, dropWhile is_digit t)
          else ([], s)
      | _ \<Rightarrow> ([], s))"

definition match_exp :: "pystr \<Rightarrow> pystr \<times> pystr" where
  "match_exp s =
     (case s of
        [] \<Rightarrow> ([], s)
      | c # t \<Rightarrow>
          if c = ord CHR ''e'' \<or> c = ord CHR ''E'' then
            (let (sign, u) = (case t of
                                [] \<Rightarrow> ([], t)
                              | x # u' \<Rightarrow>
                                  if x = ord CHR ''-'' \<or> x = ord CHR ''+''
                                  then ([x], u') else ([], t))
             in case u of
                  [] \<Rightarrow> ([], s)
                | d # ds \<Rightarrow>
                    if is_digit d
                    then (c # sign @ d # takeWhile is_digit ds, dropWhile is_digit ds)
                    else ([], s))
          else ([], s))"

definition int_of_digits :: "pystr \<Rightarrow> int" where
  "int_of_digits ds = foldl (\<lambda>a d. a * 10 + (d - 0x30)) 0 ds"

definition parse_int :: "pystr \<Rightarrow> int" where
  "parse_int lexeme =
     (case lexeme of
        [] \<Rightarrow> 0
      | c # t \<Rightarrow> if c = ord CHR ''-'' then - int_of_digits t else int_of_digits lexeme)"

definition match_number :: "pystr \<Rightarrow> (pyval \<times> pystr) option" where
  "match_number s =
     (case match_integer s of
        None \<Rightarrow> None
      | Some (integer, r1) \<Rightarrow>
          (let (frac, r2) = match_frac r1;
               (ex, r3) = match_exp r2
           in if frac = [] \<and> ex = []
              then Some (PyInt (parse_int integer), r3)
              else Some (PyFloat (integer @ frac @ ex), r3)))"

text \<open>The literals and numbers: everything that is not a string, an object or an array.\<close>

definition starts_with :: "string \<Rightarrow> pystr \<Rightarrow> bool" where
  "starts_with lit s \<longleftrightarrow> take (length lit) s = ascii lit"

definition scan_atom :: "pystr \<Rightarrow> (pyval \<times> pystr) option" where
  "scan_atom s =
     (if starts_with ''null'' s then Some (PyNone, drop 4 s)
      else if starts_with ''true'' s then Some (PyBool True, drop 4 s)
      else if starts_with ''false'' s then Some (PyBool False, drop 5 s)
      else (case match_number s of
              Some r \<Rightarrow> Some r
            | None \<Rightarrow>
                if starts_with ''NaN'' s then Some (PyFloat (ascii ''NaN''), drop 3 s)
                else if starts_with ''Infinity'' s then Some (PyFloat (ascii ''Infinity''), drop 8 s)
                else if starts_with ''-Infinity'' s then Some (PyFloat (ascii ''-Infinity''), drop 9 s)
                else None))"

text \<open>
  \<open>scan_once\<close> reads one value at the start of its input. \<open>parse_object\<close> is the loop of
  \<^verbatim>\<open>JSONObject\<close>, entered after the opening quote of a key with the pairs read so far;
  \<open>parse_array\<close> is the loop of \<^verbatim>\<open>JSONArray\<close>, entered at a value with the values read so
  far. A trailing comma is an error in both.
\<close>

function scan_once :: "pystr \<Rightarrow> (pyval \<times> pystr) option"
  and parse_object :: "(pystr \<times> pyval) list \<Rightarrow> pystr \<Rightarrow> (pyval \<times> pystr) option"
  and parse_array :: "pyval list \<Rightarrow> pystr \<Rightarrow> (pyval \<times> pystr) option"
where
  "scan_once [] = None"
| "scan_once (c # cs) =
     (if c = ord CHR 0x22 then
        (case scanstring cs of
           None \<Rightarrow> None
         | Some (str, rest) \<Rightarrow> Some (PyStr str, rest))
      else if c = ord CHR ''{'' then
        (case skip_ws cs of
           [] \<Rightarrow> None
         | d # ds \<Rightarrow>
             if d = ord CHR ''}'' then Some (PyDict [], ds)
             else if d = ord CHR 0x22 then parse_object [] ds
             else None)
      else if c = ord CHR ''['' then
        (case skip_ws cs of
           [] \<Rightarrow> None
         | d # ds \<Rightarrow>
             if d = ord CHR '']'' then Some (PyList [], ds)
             else parse_array [] (d # ds))
      else scan_atom (c # cs))"
| "parse_object pairs s =
     (case scanstring s of
        None \<Rightarrow> None
      | Some (key, r1) \<Rightarrow>
          (case skip_ws r1 of
             [] \<Rightarrow> None
           | c # r2 \<Rightarrow>
               if c \<noteq> ord CHR '':'' then None
               else
                 (case scan_once (skip_ws r2) of
                    None \<Rightarrow> None
                  | Some (v, r3) \<Rightarrow>
                      (case skip_ws r3 of
                         [] \<Rightarrow> None
                       | d # r4 \<Rightarrow>
                           if d = ord CHR ''}''
                             then Some (PyDict (dict_of_pairs (pairs @ [(key, v)])), r4)
                           else if d \<noteq> ord CHR '','' then None
                           else
                             (case skip_ws r4 of
                                [] \<Rightarrow> None
                              | q # r5 \<Rightarrow>
                                  if q = ord CHR 0x22
                                  then parse_object (pairs @ [(key, v)]) r5
                                  else None)))))"
| "parse_array vals s =
     (case scan_once s of
        None \<Rightarrow> None
      | Some (v, r1) \<Rightarrow>
          (case skip_ws r1 of
             [] \<Rightarrow> None
           | c # r2 \<Rightarrow>
               if c = ord CHR '']'' then Some (PyList (vals @ [v]), r2)
               else if c \<noteq> ord CHR '','' then None
               else parse_array (vals @ [v]) (skip_ws r2)))"
  by pat_completeness auto


lemma skip_ws_length: "length (skip_ws s) \<le> length s"
  by (simp add: skip_ws_def length_dropWhile_le)

lemma skip_ws_Cons_length: "skip_ws s = c # r \<Longrightarrow> length r < length s"
  using skip_ws_length [of s] by simp

lemma emit_Some: "emit c r = Some (s, rest) \<longleftrightarrow> (\<exists>s'. r = Some (s', rest) \<and> s = c # s')"
  by (auto simp: emit_def split: option.splits)

lemma scanstring_shorter: "scanstring s = Some (k, r) \<Longrightarrow> length r < length s"
proof (induction s arbitrary: k r rule: scanstring.induct)
  case 1
  then show ?case by simp
next
  case (2 c cs)
  show ?case
  proof (cases "c = ord CHR 0x22")
    case True
    with "2.prems" show ?thesis by simp
  next
    case nq: False
    show ?thesis
    proof (cases "c = ord CHR 0x5C")
      case True
      with "2.prems" nq obtain x rest k' where e: "scan_escape cs = Some (x, rest)"
        and s: "scanstring rest = Some (k', r)"
        by (auto simp: emit_Some split: option.splits)
      have "length r < length rest" using "2.IH"(1) [OF nq True e refl s] .
      with scan_escape_shorter [OF e] show ?thesis by simp
    next
      case False
      with "2.prems" nq obtain k' where c: "\<not> c \<le> 0x1F" and s: "scanstring cs = Some (k', r)"
        by (auto simp: emit_Some split: if_splits)
      have "length r < length cs" using "2.IH"(2) [OF nq False c s] .
      then show ?thesis by simp
    qed
  qed
qed

lemma match_integer_split: "match_integer s = Some (l, r) \<Longrightarrow> s = l @ r \<and> l \<noteq> []"
  by (auto simp: match_integer_def Let_def split: list.splits if_splits)

lemma match_frac_split: "match_frac s = (l, r) \<Longrightarrow> s = l @ r"
  by (auto simp: match_frac_def split: list.splits if_splits)

lemma match_exp_split: "match_exp s = (l, r) \<Longrightarrow> s = l @ r"
  by (auto simp: match_exp_def Let_def split: list.splits if_splits)

lemma match_number_shorter: "match_number s = Some (v, r) \<Longrightarrow> length r < length s"
proof -
  assume a: "match_number s = Some (v, r)"
  then obtain l r1 where i: "match_integer s = Some (l, r1)"
    by (auto simp: match_number_def split: option.splits)
  obtain f r2 where f: "match_frac r1 = (f, r2)" by (cases "match_frac r1")
  obtain e r3 where e: "match_exp r2 = (e, r3)" by (cases "match_exp r2")
  from a i f e have "r = r3"
    by (auto simp: match_number_def split: if_splits)
  with match_integer_split [OF i] match_frac_split [OF f] match_exp_split [OF e]
  show ?thesis by auto
qed

lemma starts_with_nonempty: "starts_with (x # lit) s \<Longrightarrow> s \<noteq> []"
  by (auto simp: starts_with_def ascii_def)

lemma scan_atom_shorter: "scan_atom s = Some (v, r) \<Longrightarrow> length r < length s"
  by (auto simp: scan_atom_def split: if_splits option.splits
      dest: match_number_shorter starts_with_nonempty)

lemma scan_partial_length:
  "scan_once_parse_object_parse_array_dom (Inl s) \<Longrightarrow>
     scan_once s = Some (v, r) \<Longrightarrow> length r < length s"
  "scan_once_parse_object_parse_array_dom (Inr (Inl (pairs, t))) \<Longrightarrow>
     parse_object pairs t = Some (v, r) \<Longrightarrow> length r < length t"
  "scan_once_parse_object_parse_array_dom (Inr (Inr (vals, u))) \<Longrightarrow>
     parse_array vals u = Some (v, r) \<Longrightarrow> length r < length u"
proof (induction s and pairs t and vals u arbitrary: v r and v r and v r
    rule: scan_once_parse_object_parse_array.pinduct)
  case 1
  then show ?case by (simp add: scan_once.psimps)
next
  case (2 c cs)
  note eq = scan_once.psimps(2) [OF "2.hyps"]
  show ?case
  proof (cases "c = ord CHR 0x22")
    case True
    with "2.prems" eq show ?thesis
      by (auto split: option.splits dest!: scanstring_shorter)
  next
    case notq: False
    show ?thesis
    proof (cases "c = ord CHR ''{''")
      case True
      show ?thesis
      proof (cases "skip_ws cs")
        case Nil
        with "2.prems" eq notq True show ?thesis by simp
      next
        case (Cons d ds)
        have ds: "length ds < length cs" by (rule skip_ws_Cons_length [OF Cons])
        show ?thesis
        proof (cases "d = ord CHR ''}''")
          case True
          with "2.prems" eq notq \<open>c = ord CHR ''{''\<close> Cons ds show ?thesis by auto
        next
          case False
          with "2.prems" eq notq \<open>c = ord CHR ''{''\<close> Cons
          have d: "d = ord CHR 0x22" and p: "parse_object [] ds = Some (v, r)"
            by (auto split: if_splits)
          have "length r < length ds"
            using "2.IH"(1) [OF notq \<open>c = ord CHR ''{''\<close> Cons False d p] .
          with ds show ?thesis by simp
        qed
      qed
    next
      case notb: False
      show ?thesis
      proof (cases "c = ord CHR ''[''")
        case True
        show ?thesis
        proof (cases "skip_ws cs")
          case Nil
          with "2.prems" eq notq notb True show ?thesis by simp
        next
          case (Cons d ds)
          have ds: "length ds < length cs" by (rule skip_ws_Cons_length [OF Cons])
          show ?thesis
          proof (cases "d = ord CHR '']''")
            case True
            with "2.prems" eq notq notb \<open>c = ord CHR ''[''\<close> Cons ds show ?thesis by auto
          next
            case False
            with "2.prems" eq notq notb \<open>c = ord CHR ''[''\<close> Cons
            have p: "parse_array [] (d # ds) = Some (v, r)"
              by (auto split: if_splits)
            have "length r < length (d # ds)"
              using "2.IH"(2) [OF notq notb \<open>c = ord CHR ''[''\<close> Cons False p] .
            with ds show ?thesis by simp
          qed
        qed
      next
        case False
        with "2.prems" eq notq notb have "scan_atom (c # cs) = Some (v, r)" by simp
        then show ?thesis by (rule scan_atom_shorter)
      qed
    qed
  qed
next
  case (3 pairs s)
  note eq = parse_object.psimps [OF "3.hyps"]
  from "3.prems" eq obtain key r1 where k: "scanstring s = Some (key, r1)"
    by (auto split: option.splits)
  from "3.prems" eq k obtain c r2 where c: "skip_ws r1 = c # r2"
    by (auto split: list.splits)
  from "3.prems" eq k c have colon: "\<not> c \<noteq> ord CHR '':''"
    by (auto split: if_splits)
  from "3.prems" eq k c colon obtain w r3 where w: "scan_once (skip_ws r2) = Some (w, r3)"
    by (auto split: option.splits)
  from "3.prems" eq k c colon w obtain d r4 where d: "skip_ws r3 = d # r4"
    by (auto split: list.splits)
  have l1: "length r1 < length s" by (rule scanstring_shorter [OF k])
  have l2: "length r2 < length r1" by (rule skip_ws_Cons_length [OF c])
  have l3: "length r3 < length (skip_ws r2)"
    using "3.IH"(1) [OF k refl c colon w] .
  have l4: "length r4 < length r3" by (rule skip_ws_Cons_length [OF d])
  have l5: "length r4 < length s"
    using l1 l2 l3 l4 skip_ws_length [of r2] by simp
  show ?case
  proof (cases "d = ord CHR ''}''")
    case True
    with "3.prems" eq k c colon w d l5 show ?thesis by auto
  next
    case False
    with "3.prems" eq k c colon w d have comma: "\<not> d \<noteq> ord CHR '',''"
      by (auto split: if_splits)
    from "3.prems" eq k c colon w d False comma obtain q r5 where q: "skip_ws r4 = q # r5"
      by (auto split: list.splits)
    from "3.prems" eq k c colon w d False comma q
    have qq: "q = ord CHR 0x22" and p: "parse_object (pairs @ [(key, w)]) r5 = Some (v, r)"
      by (auto split: if_splits)
    have "length r < length r5"
      using "3.IH"(2) [OF k refl c colon w refl d False comma q qq p] .
    with skip_ws_Cons_length [OF q] l5 show ?thesis by simp
  qed
next
  case (4 vals s)
  note eq = parse_array.psimps [OF "4.hyps"]
  from "4.prems" eq obtain w r1 where w: "scan_once s = Some (w, r1)"
    by (auto split: option.splits)
  from "4.prems" eq w obtain c r2 where c: "skip_ws r1 = c # r2"
    by (auto split: list.splits)
  have l1: "length r1 < length s" using "4.IH"(1) [OF w] .
  have l2: "length r2 < length r1" by (rule skip_ws_Cons_length [OF c])
  show ?case
  proof (cases "c = ord CHR '']''")
    case True
    with "4.prems" eq w c l1 l2 show ?thesis by auto
  next
    case False
    with "4.prems" eq w c have comma: "\<not> c \<noteq> ord CHR '',''"
      and p: "parse_array (vals @ [w]) (skip_ws r2) = Some (v, r)"
      by (auto split: if_splits)
    have "length r < length (skip_ws r2)"
      using "4.IH"(2) [OF w refl c False comma p] .
    with l1 l2 skip_ws_length [of r2] show ?thesis by simp
  qed
qed

termination scan_once
proof (relation "measure (\<lambda>x. case x of
                     Inl s \<Rightarrow> 2 * length s
                   | Inr (Inl (pairs, s)) \<Rightarrow> 2 * length s + 1
                   | Inr (Inr (vals, s)) \<Rightarrow> 2 * length s + 1)", goal_cases)
  case 1
  show ?case by simp
next
  case (2 c cs d ds)
  then show ?case using skip_ws_Cons_length [of cs d ds] by simp
next
  case (3 c cs d ds)
  then show ?case using skip_ws_Cons_length [of cs d ds] by simp
next
  case (4 pairs s x2 key r1 c r2)
  then show ?case
    using scanstring_shorter [of s key r1] skip_ws_Cons_length [of r1 c r2]
      skip_ws_length [of r2] by simp
next
  case (5 pairs s x2 key r1 c r2 x2a w r3 d r4 q r5)
  then show ?case
    using scanstring_shorter [of s key r1] skip_ws_Cons_length [of r1 c r2]
      skip_ws_length [of r2] scan_partial_length(1) [of "skip_ws r2" w r3]
      skip_ws_Cons_length [of r3 d r4] skip_ws_Cons_length [of r4 q r5]
    by simp
next
  case (6 vals s)
  show ?case by simp
next
  case (7 vals s x2 w r1 c r2)
  then show ?case
    using scan_partial_length(1) [of s w r1] skip_ws_Cons_length [of r1 c r2]
      skip_ws_length [of r2]
    by simp
qed


text \<open>
  \<^verbatim>\<open>json.loads(s)\<close>: a leading byte order mark is refused, white space around the one value
  is skipped, anything else after the value is an error (\<^verbatim>\<open>Extra data\<close>).
\<close>

definition json_loads :: "pystr \<Rightarrow> exn + pyval" where
  "json_loads s =
     (if take 1 s = [0xFEFF] then Inl JSONDecodeError
      else (case scan_once (skip_ws s) of
              None \<Rightarrow> Inl JSONDecodeError
            | Some (obj, rest) \<Rightarrow>
                if skip_ws rest = [] then Inr obj else Inl JSONDecodeError))"

section \<open>The world around the program\<close>

text \<open>
  What the program does besides returning values is recorded as a trace of events: the
  lines it logs, the calls it makes to its own stages and to the completion backend, and
  what it puts on the page. The messages are given without their emoji and without the
  parts formatted into them (file name, page count, exception text).
\<close>

datatype event =
    LogInfo string
  | LogWarning string
  | LogError string
  | CallExtract
  | CallCompletion pystr
  | CallParse pystr
  | CallDisplay pyval
  | StWarning string
  | StError string
  | StMarkdown string
  | StWrite pyval
  | StTabs pyval

type_synonym world = "event list"

definition emit_event :: "event \<Rightarrow> world \<Rightarrow> world" where
  "emit_event e w = w @ [e]"

text \<open>
  The two external collaborators. A call into a library either raises or returns. A PDF
  is what \<^verbatim>\<open>PyPDF2\<close> makes of it: opening it raises, or gives the pages, and
  \<^verbatim>\<open>extract_text\<close> of each page raises or returns a string (the empty string for a page
  without text). The completion backend maps a prompt to the text of the response, or
  raises.
\<close>

datatype 'a outcome = Raises | Returns 'a

type_synonym pdf = "pystr outcome list outcome"
type_synonym backend = "pystr \<Rightarrow> pystr outcome"

section \<open>The stages of the program\<close>

text \<open>\<^verbatim>\<open>get_gemini_response\<close>: one call to the backend, any exception becomes \<^verbatim>\<open>None\<close>.\<close>

definition get_gemini_response :: "backend \<Rightarrow> pystr \<Rightarrow> world \<Rightarrow> pystr option \<times> world" where
  "get_gemini_response model input_text w =
     (let w1 = emit_event (LogInfo ''Generating response from Gemini model'') w;
          w2 = emit_event (CallCompletion input_text) w1
      in case model input_text of
           Returns text \<Rightarrow> (Some text, emit_event (LogInfo ''Response generated successfully'') w2)
         | Raises \<Rightarrow> (None, emit_event (LogError ''Error generating response'') w2))"

text \<open>
  The loop of \<^verbatim>\<open>extract_pdf_text\<close>: \<^verbatim>\<open>text += str(page_content.extract_text())\<close> for each page
  in order (\<^verbatim>\<open>str\<close> of a string is that string); an exception of a page leaves the loop.
\<close>

fun extract_pages :: "pystr outcome list \<Rightarrow> pystr \<Rightarrow> pystr outcome" where
  "extract_pages [] text = Returns text"
| "extract_pages (page # pages) text =
     (case page of
        Raises \<Rightarrow> Raises
      | Returns page_text \<Rightarrow> extract_pages pages (text @ page_text))"

definition extract_pdf_text :: "pdf \<Rightarrow> world \<Rightarrow> pystr option \<times> world" where
  "extract_pdf_text uploaded_file w =
     (let w1 = emit_event CallExtract w;
          w2 = emit_event (LogInfo ''Processing PDF file'') w1
      in case uploaded_file of
           Raises \<Rightarrow> (None, emit_event (LogError ''Error processing PDF'') w2)
         | Returns pages \<Rightarrow>
             (case extract_pages pages [] of
                Raises \<Rightarrow> (None, emit_event (LogError ''Error processing PDF'') w2)
              | Returns text \<Rightarrow>
                  if strip text = []
                  then (None, emit_event (LogWarning ''Extracted text is empty'') w2)
                  else (Some text,
                        emit_event (LogInfo ''Successfully extracted text from PDF'') w2)))"

text \<open>
  \<^verbatim>\<open>parse_gemini_response\<close>. The parameter \<^verbatim>\<open>response\<close> is rebound to the stripped text in
  the first statement, so both error results carry the stripped text. The handler
  catches \<^verbatim>\<open>JSONDecodeError\<close> only; any other exception would leave the function.
\<close>

definition error_result :: "string \<Rightarrow> pystr \<Rightarrow> pyval" where
  "error_result message response =
     PyDict [(ascii ''error'', PyStr (ascii message)),
             (ascii ''raw_response'', PyStr response)]"

definition parse_gemini_response :: "pystr \<Rightarrow> world \<Rightarrow> (exn + pyval) \<times> world" where
  "parse_gemini_response raw w =
     (let w1 = emit_event (CallParse raw) w;
          response = strip raw;
          start_idx = str_find (ord CHR ''{'') response;
          end_idx = str_rfind (ord CHR ''}'') response + 1
      in if start_idx \<ge> 0 \<and> end_idx > start_idx then
           (case json_loads (str_slice response start_idx end_idx) of
              Inr result \<Rightarrow>
                (Inr result, emit_event (LogInfo ''Successfully parsed JSON response'') w1)
            | Inl e \<Rightarrow>
                if e = JSONDecodeError
                then (Inr (error_result ''Failed to parse response'' response),
                      emit_event (LogError ''JSON parsing error'') w1)
                else (Inl e, w1))
         else (Inr (error_result ''Invalid response format'' response),
               emit_event (LogError ''Could not find valid JSON in response'') w1))"

section \<open>The prompt builder\<close>

text \<open>The literal of \<^verbatim>\<open>create_prompt\<close>, line by line as the source has it.\<close>

definition prompt_template_lines :: "string list" where
  "prompt_template_lines =
   [
     ''''
   , ''    You are an elite Applicant Tracking System (ATS) expert with deep specialization in technical recruitment for fields including ''
   , ''    software engineering, data science, machine learning, data analysis, big data engineering, cloud computing, ''
   , ''    and IT roles. You have 15+ years of experience in technical recruiting for top tech companies.''
   , ''    ''
   , ''    Analyze the provided resume against the job description with extreme precision and provide:''
   , ''    ''
   , ''    1. A percentage match score between the resume and job description. Be realistic but fair - most candidates don't exceed 85% match.''
   , ''    2. A detailed, categorized list of important keywords/skills from the job description missing in the resume.''
   , ''       Categorize them as: Technical Skills, Soft Skills, Experience, Education/Certifications.''
   , ''    3. A compelling professional summary of the candidate's profile.''
   , ''    4. 3-5 specific, actionable recommendations to improve the resume for this particular job.''
   , ''    5. 2-3 strengths of the resume relative to the job description.''
   , ''    6. A brief explanation of why certain skills/experiences are particularly valuable for this role.''
   , ''    ''
   , ''    Resume:''
   , ''    {resume}''
   , ''    ''
   , ''    Job Description:''
   , ''    {jd}''
   , ''    ''
   , ''    Return your analysis in the following JSON format only:''
   , ''    {{''
   , ''        \"JD Match\": \"XX%\",''
   , ''        \"MissingKeywords\": {{''
   , ''            \"Technical Skills\": [\"skill1\", \"skill2\", ...],''
   , ''            \"Soft Skills\": [\"skill1\", \"skill2\", ...],''
   , ''            \"Experience\": [\"exp1\", \"exp2\", ...],''
   , ''            \"Education/Certifications\": [\"cert1\", \"cert2\", ...]''
   , ''        }},''
   , ''        \"Profile Summary\": \"Compelling summary of the candidate's profile\",''
   , ''        \"Improvement Suggestions\": [\"suggestion1\", \"suggestion2\", \"suggestion3\", ...],''
   , ''        \"Resume Strengths\": [\"strength1\", \"strength2\", ...],''
   , ''        \"Key Role Requirements\": \"Brief explanation of the most critical skills for this role\"''
   , ''    }}''
   , ''    ''
   , ''    Be thorough but ensure you maintain valid JSON format. Focus on practical, actionable insights that would genuinely help the candidate.''
   , ''    ''
   ]"

definition prompt_template :: pystr where
  "prompt_template = ascii (join_lines prompt_template_lines)"

text \<open>\<^verbatim>\<open>create_prompt\<close>: the template formatted with the two keyword arguments.\<close>

definition create_prompt :: "pystr \<Rightarrow> pystr \<Rightarrow> exn + pystr" where
  "create_prompt resume_text job_description =
     str_format prompt_template
       [(ascii ''resume'', resume_text), (ascii ''jd'', job_description)]"

text \<open>
  The three fixed parts of the prompt: what precedes the resume, what stands between the
  resume and the job description, and what follows, with the braces of the JSON example
  single as the model is to read them.
\<close>

definition prompt_head_lines :: "string list" where
  "prompt_head_lines =
   [
     ''''
   , ''    You are an elite Applicant Tracking System (ATS) expert with deep specialization in technical recruitment for fields including ''
   , ''    software engineering, data science, machine learning, data analysis, big data engineering, cloud computing, ''
   , ''    and IT roles. You have 15+ years of experience in technical recruiting for top tech companies.''
   , ''    ''
   , ''    Analyze the provided resume against the job description with extreme precision and provide:''
   , ''    ''
   , ''    1. A percentage match score between the resume and job description. Be realistic but fair - most candidates don't exceed 85% match.''
   , ''    2. A detailed, categorized list of important keywords/skills from the job description missing in the resume.''
   , ''       Categorize them as: Technical Skills, Soft Skills, Experience, Education/Certifications.''
   , ''    3. A compelling professional summary of the candidate's profile.''
   , ''    4. 3-5 specific, actionable recommendations to improve the resume for this particular job.''
   , ''    5. 2-3 strengths of the resume relative to the job description.''
   , ''    6. A brief explanation of why certain skills/experiences are particularly valuable for this role.''
   , ''    ''
   , ''    Resume:''
   , ''    ''
   ]"

definition prompt_middle_lines :: "string list" where
  "prompt_middle_lines =
   [
     ''''
   , ''    ''
   , ''    Job Description:''
   , ''    ''
   ]"

definition prompt_tail_lines :: "string list" where
  "prompt_tail_lines =
   [
     ''''
   , ''    ''
   , ''    Return your analysis in the following JSON format only:''
   , ''    {''
   , ''        \"JD Match\": \"XX%\",''
   , ''        \"MissingKeywords\": {''
   , ''            \"Technical Skills\": [\"skill1\", \"skill2\", ...],''
   , ''            \"Soft Skills\": [\"skill1\", \"skill2\", ...],''
   , ''            \"Experience\": [\"exp1\", \"exp2\", ...],''
   , ''            \"Education/Certifications\": [\"cert1\", \"cert2\", ...]''
   , ''        },''
   , ''        \"Profile Summary\": \"Compelling summary of the candidate's profile\",''
   , ''        \"Improvement Suggestions\": [\"suggestion1\", \"suggestion2\", \"suggestion3\", ...],''
   , ''        \"Resume Strengths\": [\"strength1\", \"strength2\", ...],''
   , ''        \"Key Role Requirements\": \"Brief explanation of the most critical skills for this role\"''
   , ''    }''
   , ''    ''
   , ''    Be thorough but ensure you maintain valid JSON format. Focus on practical, actionable insights that would genuinely help the candidate.''
   , ''    ''
   ]"

definition prompt_head :: pystr where
  "prompt_head = ascii (join_lines prompt_head_lines)"

definition prompt_middle :: pystr where
  "prompt_middle = ascii (join_lines prompt_middle_lines)"

definition prompt_tail :: pystr where
  "prompt_tail = ascii (join_lines prompt_tail_lines)"

text \<open>Doubling the braces of a text, as the template writes the braces it means literally.\<close>

fun escape_braces :: "pystr \<Rightarrow> pystr" where
  "escape_braces [] = []"
| "escape_braces (c # cs) =
     (if c = ord CHR ''{'' \<or> c = ord CHR ''}'' then c # c # escape_braces cs
      else c # escape_braces cs)"

text \<open>
  \<^verbatim>\<open>display_results\<close>. A result with the key \<^verbatim>\<open>error\<close> is shown as an error with the raw
  response; for any other result the four tabs are rendered from it, which is the
  presentation layer and stays one event here. The parameter is a dictionary by its
  annotation; another value has no key.
\<close>

definition has_key :: "pystr \<Rightarrow> pyval \<Rightarrow> bool" where
  "has_key k v = (case v of PyDict d \<Rightarrow> k \<in> fst ` set d | _ \<Rightarrow> False)"

definition get_item :: "pyval \<Rightarrow> pystr \<Rightarrow> pyval \<Rightarrow> pyval" where
  "get_item v k dflt = (case v of PyDict d \<Rightarrow> dict_get d k dflt | _ \<Rightarrow> dflt)"

definition display_results :: "pyval \<Rightarrow> world \<Rightarrow> world" where
  "display_results analysis_results w =
     (let w1 = emit_event (CallDisplay analysis_results) w
      in if has_key (ascii ''error'') analysis_results then
           emit_event
             (StWrite (get_item analysis_results (ascii ''raw_response'')
                         (PyStr (ascii ''No response available''))))
             (emit_event (StWrite (PyStr (ascii ''Raw response:'')))
                (emit_event (StError ''Error analyzing the resume'') w1))
         else emit_event (StTabs analysis_results) w1)"

text \<open>
  The analysis section of \<^verbatim>\<open>main\<close>, entered when the button is pressed: the uploaded file
  (if any), the job description and the backend are its inputs. \<^verbatim>\<open>not x\<close> holds for
  \<^verbatim>\<open>None\<close> and for the empty string. An exception that no handler catches ends the run
  (\<open>Inl\<close>). The rules and the footer written around the results are left out.
\<close>

definition analyze :: "pdf option \<Rightarrow> pystr \<Rightarrow> backend \<Rightarrow> world \<Rightarrow> exn + world" where
  "analyze uploaded_file job_description model w =
     (case uploaded_file of
        None \<Rightarrow> Inr (emit_event (StWarning ''Please upload a resume PDF file'') w)
      | Some file \<Rightarrow>
          if job_description = []
          then Inr (emit_event (StWarning ''Please provide a job description'') w)
          else
            (case extract_pdf_text file w of
               (None, w1) \<Rightarrow>
                 Inr (emit_event (StError ''Could not extract text from the uploaded PDF'') w1)
             | (Some resume_text, w1) \<Rightarrow>
                 if resume_text = []
                 then Inr (emit_event (StError ''Could not extract text from the uploaded PDF'') w1)
                 else
                   (case create_prompt resume_text job_description of
                      Inl e \<Rightarrow> Inl e
                    | Inr prompt \<Rightarrow>
                        (case get_gemini_response model prompt w1 of
                           (None, w2) \<Rightarrow>
                             Inr (emit_event
                                   (StError ''Failed to get analysis from the AI model'') w2)
                         | (Some response, w2) \<Rightarrow>
                             if response = []
                             then Inr (emit_event
                                        (StError ''Failed to get analysis from the AI model'') w2)
                             else
                               (let w3 = emit_event (StMarkdown ''Resume Analysis Results'') w2
                                in case parse_gemini_response response w3 of
                                     (Inl e, w4) \<Rightarrow> Inl e
                                   | (Inr analysis_results, w4) \<Rightarrow>
                                       Inr (emit_event
                                             (LogInfo ''Analysis completed and displayed to user'')
                                             (display_results analysis_results w4)))))))"

text \<open>
  The words of the specification for what the index arithmetic of the parser computes:
  a text has a brace pair when it has an opening brace and a closing brace somewhere
  after the first opening one; its payload is the text from the first opening brace
  through the last closing brace.
\<close>

definition brace_pair :: "pystr \<Rightarrow> bool" where
  "brace_pair t \<longleftrightarrow>
     ord CHR ''{'' \<in> set t \<and>
     ord CHR ''}'' \<in> set (dropWhile (\<lambda>c. c \<noteq> ord CHR ''{'') t)"

definition payload :: "pystr \<Rightarrow> pystr" where
  "payload t =
     rev (dropWhile (\<lambda>c. c \<noteq> ord CHR ''}'')
            (rev (dropWhile (\<lambda>c. c \<noteq> ord CHR ''{'') t)))"

text \<open>What a trace records of the calls to the backend, to the parser and to the display.\<close>

definition completion_calls :: "world \<Rightarrow> pystr list" where
  "completion_calls w = concat (map (\<lambda>e. case e of CallCompletion p \<Rightarrow> [p] | _ \<Rightarrow> []) w)"

definition parse_calls :: "world \<Rightarrow> pystr list" where
  "parse_calls w = concat (map (\<lambda>e. case e of CallParse r \<Rightarrow> [r] | _ \<Rightarrow> []) w)"

definition displayed :: "world \<Rightarrow> pyval list" where
  "displayed w = concat (map (\<lambda>e. case e of CallDisplay v \<Rightarrow> [v] | _ \<Rightarrow> []) w)"











text \<open>
  The data of end-to-end scenario A of the specification: the reply of the model stub
  and the structure it stands for.
\<close>

definition scenario_A_reply :: pystr where
  "scenario_A_reply = ascii
     ''{\"JD Match\": \"70%\", \"MissingKeywords\": {\"Technical Skills\": [\"AWS\"]}, \"Profile Summary\": \"...\", \"Improvement Suggestions\": [\"Add AWS experience\"], \"Resume Strengths\": [\"Strong SQL skills\"], \"Key Role Requirements\": \"...\"}''"

definition scenario_A_result :: pyval where
  "scenario_A_result = PyDict
     [(ascii ''JD Match'', PyStr (ascii ''70%'')),
      (ascii ''MissingKeywords'',
         PyDict [(ascii ''Technical Skills'', PyList [PyStr (ascii ''AWS'')])]),
      (ascii ''Profile Summary'', PyStr (ascii ''...'')),
      (ascii ''Improvement Suggestions'', PyList [PyStr (ascii ''Add AWS experience'')]),
      (ascii ''Resume Strengths'', PyList [PyStr (ascii ''Strong SQL skills'')]),
      (ascii ''Key Role Requirements'', PyStr (ascii ''...''))]"

section \<open>Properties\<close>

subsection \<open>The prompt builder\<close>

lemma prepend_simps [simp]:
  "prepend xs (Inl e) = Inl e" "prepend xs (Inr ys) = Inr (xs @ ys)"
  by (simp_all add: prepend_def)

lemma prepend_prepend: "prepend xs (prepend ys r) = prepend (xs @ ys) r"
  by (cases r) simp_all

lemma ascii_append: "ascii (xs @ ys) = ascii xs @ ascii ys"
  by (simp add: ascii_def)

lemma ascii_mem: "ord c \<in> set (ascii s) \<longleftrightarrow> c \<in> set s"
  by (simp only: ascii_def set_map inj_image_mem_iff [OF inj_of_char])

lemma escape_braces_append:
  "escape_braces (xs @ ys) = escape_braces xs @ escape_braces ys"
  by (induction xs) simp_all

lemma escape_braces_plain:
  "ord CHR ''{'' \<notin> set xs \<Longrightarrow> ord CHR ''}'' \<notin> set xs \<Longrightarrow> escape_braces xs = xs"
  by (induction xs) auto

lemma escape_braces_text:
  assumes "CHR ''{'' \<notin> set s" and "CHR ''}'' \<notin> set s"
  shows "escape_braces (ascii s) = ascii s"
proof (rule escape_braces_plain)
  show "ord CHR ''{'' \<notin> set (ascii s)" using assms(1) ascii_mem by blast
  show "ord CHR ''}'' \<notin> set (ascii s)" using assms(2) ascii_mem by blast
qed

lemma escape_braces_open: "escape_braces (ascii ''{'') = ascii ''{{''"
  by (simp add: ascii_def)

lemma escape_braces_close: "escape_braces (ascii ''}'') = ascii ''}}''"
  by (simp add: ascii_def)

text \<open>
  Formatting an escaped text gives the text back: the doubled braces become single and
  nothing else is touched.
\<close>

lemma str_format_escaped:
  "str_format (escape_braces xs @ ys) kw = prepend xs (str_format ys kw)"
proof (induction xs)
  case Nil
  show ?case by (cases "str_format ys kw") simp_all
next
  case (Cons c cs)
  then show ?case by (simp add: prepend_prepend)
qed

lemma str_format_resume:
  "str_format (ascii ''{resume}'' @ ys) [(ascii ''resume'', r), (ascii ''jd'', j)] =
   prepend r (str_format ys [(ascii ''resume'', r), (ascii ''jd'', j)])"
  by (simp add: ascii_def field_syntax_chars_def)

lemma str_format_jd:
  "str_format (ascii ''{jd}'' @ ys) [(ascii ''resume'', r), (ascii ''jd'', j)] =
   prepend j (str_format ys [(ascii ''resume'', r), (ascii ''jd'', j)])"
  by (simp add: ascii_def field_syntax_chars_def)

text \<open>
  The template is the three fixed parts with their braces doubled, around the two
  replacement fields. The tail is cut at its four braces into five blocks without
  braces.
\<close>

lemma prompt_template_parts:
  "prompt_template =
     escape_braces prompt_head @ ascii ''{resume}'' @
     escape_braces prompt_middle @ ascii ''{jd}'' @
     escape_braces prompt_tail"
proof -
  define B0 :: string where "B0 = ''\<newline>    \<newline>    Return your analysis in the following JSON format only:\<newline>    ''"
  define B1 :: string where "B1 = ''\<newline>        \"JD Match\": \"XX%\",\<newline>        \"MissingKeywords\": ''"
  define B2 :: string where "B2 = ''\<newline>            \"Technical Skills\": [\"skill1\", \"skill2\", ...],\<newline>            \"Soft Skills\": [\"skill1\", \"skill2\", ...],\<newline>            \"Experience\": [\"exp1\", \"exp2\", ...],\<newline>            \"Education/Certifications\": [\"cert1\", \"cert2\", ...]\<newline>        ''"
  define B3 :: string where "B3 = '',\<newline>        \"Profile Summary\": \"Compelling summary of the candidate's profile\",\<newline>        \"Improvement Suggestions\": [\"suggestion1\", \"suggestion2\", \"suggestion3\", ...],\<newline>        \"Resume Strengths\": [\"strength1\", \"strength2\", ...],\<newline>        \"Key Role Requirements\": \"Brief explanation of the most critical skills for this role\"\<newline>    ''"
  define B4 :: string where "B4 = ''\<newline>    \<newline>    Be thorough but ensure you maintain valid JSON format. Focus on practical, actionable insights that would genuinely help the candidate.\<newline>    ''"
  define H where "H = join_lines prompt_head_lines"
  define M where "M = join_lines prompt_middle_lines"
  have tpl: "join_lines prompt_template_lines =
      H @ ''{resume}'' @ M @ ''{jd}'' @
      B0 @ ''{{'' @ B1 @ ''{{'' @ B2 @ ''}}'' @ B3 @ ''}}'' @ B4"
    unfolding H_def M_def B0_def B1_def B2_def B3_def B4_def
      prompt_template_lines_def prompt_head_lines_def prompt_middle_lines_def
    by simp
  have tail: "join_lines prompt_tail_lines =
      B0 @ ''{'' @ B1 @ ''{'' @ B2 @ ''}'' @ B3 @ ''}'' @ B4"
    unfolding B0_def B1_def B2_def B3_def B4_def prompt_tail_lines_def
    by simp
  have pH: "CHR ''{'' \<notin> set H" "CHR ''}'' \<notin> set H"
    unfolding H_def prompt_head_lines_def by simp_all
  have pM: "CHR ''{'' \<notin> set M" "CHR ''}'' \<notin> set M"
    unfolding M_def prompt_middle_lines_def by simp_all
  have p0: "CHR ''{'' \<notin> set B0" "CHR ''}'' \<notin> set B0" unfolding B0_def by simp_all
  have p1: "CHR ''{'' \<notin> set B1" "CHR ''}'' \<notin> set B1" unfolding B1_def by simp_all
  have p2: "CHR ''{'' \<notin> set B2" "CHR ''}'' \<notin> set B2" unfolding B2_def by simp_all
  have p3: "CHR ''{'' \<notin> set B3" "CHR ''}'' \<notin> set B3" unfolding B3_def by simp_all
  have p4: "CHR ''{'' \<notin> set B4" "CHR ''}'' \<notin> set B4" unfolding B4_def by simp_all
  have "escape_braces prompt_tail =
      ascii B0 @ ascii ''{{'' @ ascii B1 @ ascii ''{{'' @ ascii B2 @ ascii ''}}'' @
      ascii B3 @ ascii ''}}'' @ ascii B4"
    unfolding prompt_tail_def tail ascii_append escape_braces_append
    by (simp only: escape_braces_text [OF p0] escape_braces_text [OF p1]
        escape_braces_text [OF p2] escape_braces_text [OF p3] escape_braces_text [OF p4]
        escape_braces_open escape_braces_close)
  moreover have "escape_braces prompt_head = ascii H"
    unfolding prompt_head_def H_def [symmetric] by (rule escape_braces_text [OF pH])
  moreover have "escape_braces prompt_middle = ascii M"
    unfolding prompt_middle_def M_def [symmetric] by (rule escape_braces_text [OF pM])
  moreover have "prompt_template =
      ascii H @ ascii ''{resume}'' @ ascii M @ ascii ''{jd}'' @
      ascii B0 @ ascii ''{{'' @ ascii B1 @ ascii ''{{'' @ ascii B2 @ ascii ''}}'' @
      ascii B3 @ ascii ''}}'' @ ascii B4"
    unfolding prompt_template_def tpl ascii_append ..
  ultimately show ?thesis by (simp only: append_assoc)
qed

lemma create_prompt_result:
  "create_prompt resume_text job_description =
     Inr (prompt_head @ resume_text @ prompt_middle @ job_description @ prompt_tail)"
proof -
  let ?kw = "[(ascii ''resume'', resume_text), (ascii ''jd'', job_description)]"
  have "str_format (escape_braces prompt_tail) ?kw = Inr prompt_tail"
    using str_format_escaped [of prompt_tail "[]" ?kw] by simp
  then show ?thesis
    unfolding create_prompt_def prompt_template_parts
    by (simp only: str_format_escaped str_format_resume str_format_jd prepend_simps)
qed

text \<open>
  C1. For every resume text and every job description, braces included,
  \<^verbatim>\<open>create_prompt\<close> does not raise and returns the three fixed parts of the template with
  the resume text and the job description, as they are, between them; the template is
  these three parts (braces doubled) around its two replacement fields.
\<close>

theorem create_prompt_substitutes_verbatim:
  "create_prompt resume_text job_description =
     Inr (prompt_head @ resume_text @ prompt_middle @ job_description @ prompt_tail)
   \<and> prompt_template =
       escape_braces prompt_head @ ascii ''{resume}'' @
       escape_braces prompt_middle @ ascii ''{jd}'' @
       escape_braces prompt_tail"
proof (rule conjI)
  show "create_prompt resume_text job_description =
     Inr (prompt_head @ resume_text @ prompt_middle @ job_description @ prompt_tail)"
    by (rule create_prompt_result)
  show "prompt_template =
       escape_braces prompt_head @ ascii ''{resume}'' @
       escape_braces prompt_middle @ ascii ''{jd}'' @
       escape_braces prompt_tail"
    by (rule prompt_template_parts)
qed

subsection \<open>The document extractor\<close>

lemma strip_empty_iff: "strip s = [] \<longleftrightarrow> (\<forall>c\<in>set s. isspace c)"
proof
  assume "strip s = []"
  then have all: "\<forall>c\<in>set (dropWhile isspace s). isspace c"
    by (simp add: strip_def dropWhile_eq_Nil_conv)
  have "dropWhile isspace s = []"
  proof (rule ccontr)
    assume ne: "dropWhile isspace s \<noteq> []"
    then have "\<not> isspace (hd (dropWhile isspace s))" by (rule hd_dropWhile)
    moreover have "hd (dropWhile isspace s) \<in> set (dropWhile isspace s)"
      using ne by (rule hd_in_set)
    ultimately show False using all by blast
  qed
  then show "\<forall>c\<in>set s. isspace c"
    by (simp add: dropWhile_eq_Nil_conv)
next
  assume "\<forall>c\<in>set s. isspace c"
  then have d: "dropWhile isspace s = []"
    by (simp add: dropWhile_eq_Nil_conv)
  show "strip s = []"
    unfolding strip_def d by simp
qed

text \<open>The texts of the pages that returned one, in page order.\<close>

lemma extract_pages_Returns:
  "extract_pages (map Returns texts) acc = Returns (acc @ concat texts)"
  by (induction texts arbitrary: acc) simp_all

lemma extract_pages_Raises: "extract_pages pages acc = Raises \<longleftrightarrow> Raises \<in> set pages"
  by (induction pages arbitrary: acc) (auto split: outcome.splits)

lemma pages_all_return: "Raises \<notin> set pages \<Longrightarrow> \<exists>texts. pages = map Returns texts"
proof (induction pages)
  case Nil
  show ?case by simp
next
  case (Cons p ps)
  then obtain texts where "ps = map Returns texts" by auto
  moreover from Cons.prems obtain t where "p = Returns t" by (cases p) auto
  ultimately have "p # ps = map Returns (t # texts)" by simp
  then show ?case by (rule exI)
qed

text \<open>
  C2. When every page can be read, the result is the concatenation of the page texts in
  page order, nothing skipped and nothing added (a page without text adds the empty
  string), unless that concatenation is empty or consists of white space only; and the
  extraction fails exactly when opening the document or reading a page raises, or the
  concatenation of all pages is empty or white space only.
\<close>

theorem extract_pdf_text_concatenates_pages:
  "fst (extract_pdf_text (Returns (map Returns texts)) w) =
     (if \<forall>c\<in>set (concat texts). isspace c then None else Some (concat texts))
   \<and> (fst (extract_pdf_text file w) = None \<longleftrightarrow>
        file = Raises \<or>
        (\<exists>pages. file = Returns pages \<and>
           (Raises \<in> set pages \<or>
            (\<exists>ts. pages = map Returns ts \<and> (\<forall>c\<in>set (concat ts). isspace c)))))"
proof
  show "fst (extract_pdf_text (Returns (map Returns texts)) w) =
     (if \<forall>c\<in>set (concat texts). isspace c then None else Some (concat texts))"
    using strip_empty_iff [of "concat texts"]
    by (simp add: extract_pdf_text_def Let_def extract_pages_Returns)
next
  show "fst (extract_pdf_text file w) = None \<longleftrightarrow>
        file = Raises \<or>
        (\<exists>pages. file = Returns pages \<and>
           (Raises \<in> set pages \<or>
            (\<exists>ts. pages = map Returns ts \<and> (\<forall>c\<in>set (concat ts). isspace c))))"
  proof (cases "file")
    case Raises
    then show ?thesis by (simp add: extract_pdf_text_def Let_def)
  next
    case (Returns pages)
    show ?thesis
    proof (cases "Raises \<in> set pages")
      case True
      then have "extract_pages pages [] = Raises" by (simp add: extract_pages_Raises)
      with Returns True show ?thesis by (simp add: extract_pdf_text_def Let_def)
    next
      case False
      then obtain ts where ts: "pages = map Returns ts" using pages_all_return by blast
      show ?thesis
        using Returns False ts strip_empty_iff [of "concat ts"]
        by (simp add: extract_pdf_text_def Let_def extract_pages_Returns inj_map_eq_map inj_def)
    qed
  qed
qed

theorem extract_pdf_text_concatenates_pages_witness:
  "fst (extract_pdf_text
          (Returns [Returns (ascii ''Python, ''), Returns [], Returns (ascii ''SQL'')]) []) =
     Some (ascii ''Python, SQL'')
   \<and> fst (extract_pdf_text (Returns [Returns (ascii '' ''), Raises]) []) = None
   \<and> fst (extract_pdf_text (Returns [Returns (ascii '' ''), Returns [0x0A]]) []) = None"
proof -
  have a: "fst (extract_pdf_text
          (Returns [Returns (ascii ''Python, ''), Returns [], Returns (ascii ''SQL'')]) []) =
     Some (ascii ''Python, SQL'')"
    using extract_pdf_text_concatenates_pages
      [of "[ascii ''Python, '', [], ascii ''SQL'']" "[]" Raises]
    by (simp add: ascii_def isspace_def)
  have b: "fst (extract_pdf_text (Returns [Returns (ascii '' ''), Raises]) []) = None"
    using extract_pdf_text_concatenates_pages
      [of "[]" "[]" "Returns [Returns (ascii '' ''), Raises]"]
    by simp
  have c: "fst (extract_pdf_text (Returns [Returns (ascii '' ''), Returns [0x0A]]) []) = None"
    using extract_pdf_text_concatenates_pages
      [of "[ascii '' '', [0x0A]]" "[]" Raises]
    by (simp add: ascii_def isspace_def)
  from a b c show ?thesis by simp
qed

subsection \<open>Finding the braces\<close>

lemma takeWhile_until:
  "c \<notin> set xs \<Longrightarrow> takeWhile (\<lambda>x. x \<noteq> c) (xs @ c # ys) = xs"
  by (induction xs) auto

lemma dropWhile_until:
  "c \<notin> set xs \<Longrightarrow> dropWhile (\<lambda>x. x \<noteq> c) (xs @ c # ys) = c # ys"
  by (induction xs) auto

lemma str_find_first:
  "c \<notin> set xs \<Longrightarrow> str_find c (xs @ c # ys) = int (length xs)"
  by (simp add: str_find_def takeWhile_until)

lemma str_rfind_last:
  assumes "c \<notin> set vs"
  shows "str_rfind c (us @ c # vs) = int (length us)"
proof -
  have "takeWhile (\<lambda>x. x \<noteq> c) (rev vs @ c # rev us) = rev vs"
    using assms takeWhile_until [of c "rev vs" "rev us"] by simp
  then show ?thesis by (simp add: str_rfind_def)
qed

lemma str_find_nonneg: "0 \<le> str_find c s \<longleftrightarrow> c \<in> set s"
  by (simp add: str_find_def)

lemma str_rfind_absent: "c \<notin> set s \<Longrightarrow> str_rfind c s = - 1"
  by (simp add: str_rfind_def)

text \<open>
  A text with a brace pair splits at its first opening and its last closing brace, and
  the indices and the slice of the source are those of this split.
\<close>

lemma brace_pair_split:
  assumes "brace_pair t"
  obtains xs mid vs where "t = xs @ ord CHR ''{'' # mid @ ord CHR ''}'' # vs"
    and "ord CHR ''{'' \<notin> set xs" and "ord CHR ''}'' \<notin> set vs"
proof -
  from assms have "ord CHR ''{'' \<in> set t" by (simp add: brace_pair_def)
  then obtain xs ys where t: "t = xs @ ord CHR ''{'' # ys" and xs: "ord CHR ''{'' \<notin> set xs"
    by (meson split_list_first)
  have "dropWhile (\<lambda>c. c \<noteq> ord CHR ''{'') t = ord CHR ''{'' # ys"
    unfolding t by (rule dropWhile_until [OF xs])
  with assms have "ord CHR ''}'' \<in> set ys" by (simp add: brace_pair_def)
  then obtain mid vs where ys: "ys = mid @ ord CHR ''}'' # vs" and vs: "ord CHR ''}'' \<notin> set vs"
    by (meson split_list_last)
  show thesis using that [of xs mid vs] t ys xs vs by simp
qed

lemma split_brace_pair:
  assumes "t = xs @ ord CHR ''{'' # mid @ ord CHR ''}'' # vs"
    and "ord CHR ''{'' \<notin> set xs" and "ord CHR ''}'' \<notin> set vs"
  shows "brace_pair t"
    and "payload t = ord CHR ''{'' # mid @ [ord CHR ''}'']"
    and "str_find (ord CHR ''{'') t = int (length xs)"
    and "str_rfind (ord CHR ''}'') t = int (length xs + length mid + 1)"
    and "str_slice t (int (length xs)) (int (length xs + length mid + 1) + 1) =
           ord CHR ''{'' # mid @ [ord CHR ''}'']"
proof -
  have dw: "dropWhile (\<lambda>c. c \<noteq> ord CHR ''{'') t = ord CHR ''{'' # mid @ ord CHR ''}'' # vs"
    unfolding assms(1) by (rule dropWhile_until [OF assms(2)])
  show "brace_pair t"
    unfolding brace_pair_def dw unfolding assms(1) by simp
  have "dropWhile (\<lambda>c. c \<noteq> ord CHR ''}'') (rev vs @ ord CHR ''}'' # rev mid @ [ord CHR ''{''])
      = ord CHR ''}'' # rev mid @ [ord CHR ''{'']"
    using assms(3) dropWhile_until [of "ord CHR ''}''" "rev vs" "rev mid @ [ord CHR ''{'']"]
    by simp
  then show "payload t = ord CHR ''{'' # mid @ [ord CHR ''}'']"
    unfolding payload_def dw by simp
  show "str_find (ord CHR ''{'') t = int (length xs)"
    unfolding assms(1) by (rule str_find_first [OF assms(2)])
  have "t = (xs @ ord CHR ''{'' # mid) @ ord CHR ''}'' # vs" unfolding assms(1) by simp
  then have "str_rfind (ord CHR ''}'') t = int (length (xs @ ord CHR ''{'' # mid))"
    using str_rfind_last [OF assms(3)] by metis
  then show "str_rfind (ord CHR ''}'') t = int (length xs + length mid + 1)" by simp
  have "take (length xs + length mid + 2) t = xs @ ord CHR ''{'' # mid @ [ord CHR ''}'']"
    unfolding assms(1) by simp
  then show "str_slice t (int (length xs)) (int (length xs + length mid + 1) + 1) =
           ord CHR ''{'' # mid @ [ord CHR ''}'']"
    by (simp add: str_slice_def nat_add_distrib)
qed

text \<open>The guard of the source holds exactly for the texts with a brace pair.\<close>

lemma guard_iff_brace_pair:
  "0 \<le> str_find (ord CHR ''{'') t \<and>
   str_find (ord CHR ''{'') t < str_rfind (ord CHR ''}'') t + 1 \<longleftrightarrow> brace_pair t"
proof
  assume "brace_pair t"
  then obtain xs mid vs where t: "t = xs @ ord CHR ''{'' # mid @ ord CHR ''}'' # vs"
    and xs: "ord CHR ''{'' \<notin> set xs" and vs: "ord CHR ''}'' \<notin> set vs"
    by (rule brace_pair_split)
  show "0 \<le> str_find (ord CHR ''{'') t \<and>
      str_find (ord CHR ''{'') t < str_rfind (ord CHR ''}'') t + 1"
    using split_brace_pair(3,4) [OF t xs vs] by simp
next
  assume g: "0 \<le> str_find (ord CHR ''{'') t \<and>
      str_find (ord CHR ''{'') t < str_rfind (ord CHR ''}'') t + 1"
  then have "ord CHR ''{'' \<in> set t" by (simp add: str_find_nonneg)
  then obtain xs ys where t: "t = xs @ ord CHR ''{'' # ys" and xs: "ord CHR ''{'' \<notin> set xs"
    by (meson split_list_first)
  have f: "str_find (ord CHR ''{'') t = int (length xs)"
    unfolding t by (rule str_find_first [OF xs])
  have "ord CHR ''}'' \<in> set t"
    using g f str_rfind_absent [of "ord CHR ''}''" t] by fastforce
  then obtain us vs where u: "t = us @ ord CHR ''}'' # vs" and vs: "ord CHR ''}'' \<notin> set vs"
    by (meson split_list_last)
  have r: "str_rfind (ord CHR ''}'') t = int (length us)"
    unfolding u by (rule str_rfind_last [OF vs])
  from g f r have le: "length xs \<le> length us" by simp
  have "t ! length xs = ord CHR ''{''" unfolding t by simp
  moreover have "t ! length us = ord CHR ''}''" unfolding u by simp
  ultimately have "length xs \<noteq> length us" by auto
  with le have lt: "length xs < length us" by simp
  have "ord CHR ''}'' \<in> set ys"
  proof -
    have "length us < length t" unfolding u by simp
    then have "length us - Suc (length xs) < length ys" using lt unfolding t by simp
    moreover have "ys ! (length us - Suc (length xs)) = t ! length us"
      using lt unfolding t by (simp add: nth_append nth_Cons')
    ultimately show ?thesis
      using \<open>t ! length us = ord CHR ''}''\<close> by (metis nth_mem)
  qed
  moreover have "dropWhile (\<lambda>c. c \<noteq> ord CHR ''{'') t = ord CHR ''{'' # ys"
    unfolding t by (rule dropWhile_until [OF xs])
  ultimately show "brace_pair t"
    using \<open>ord CHR ''{'' \<in> set t\<close> by (simp add: brace_pair_def)
qed

lemma guard_slice:
  assumes "brace_pair t"
  shows "str_slice t (str_find (ord CHR ''{'') t) (str_rfind (ord CHR ''}'') t + 1) = payload t"
proof -
  from assms obtain xs mid vs where t: "t = xs @ ord CHR ''{'' # mid @ ord CHR ''}'' # vs"
    and xs: "ord CHR ''{'' \<notin> set xs" and vs: "ord CHR ''}'' \<notin> set vs"
    by (rule brace_pair_split)
  show ?thesis
    using split_brace_pair(2,3,4,5) [OF t xs vs] by simp
qed


subsection \<open>What the parser returns\<close>

lemma json_loads_error: "json_loads s = Inl e \<Longrightarrow> e = JSONDecodeError"
  by (auto simp: json_loads_def split: if_splits option.splits)

text \<open>
  The result of \<^verbatim>\<open>parse_gemini_response\<close> by cases, in terms of the brace pair and the
  payload of the stripped text. The trace is not read.
\<close>

lemma parse_result:
  "fst (parse_gemini_response raw w) =
     (if brace_pair (strip raw)
      then (case json_loads (payload (strip raw)) of
              Inr result \<Rightarrow> Inr result
            | Inl e \<Rightarrow> Inr (error_result ''Failed to parse response'' (strip raw)))
      else Inr (error_result ''Invalid response format'' (strip raw)))"
proof (cases "brace_pair (strip raw)")
  case True
  then have g: "0 \<le> str_find (ord CHR ''{'') (strip raw) \<and>
      str_find (ord CHR ''{'') (strip raw) < str_rfind (ord CHR ''}'') (strip raw) + 1"
    using guard_iff_brace_pair [of "strip raw"] by blast
  show ?thesis
    using True g guard_slice [OF True]
    by (auto simp: parse_gemini_response_def Let_def split: sum.splits
        dest: json_loads_error)
next
  case False
  then have g: "\<not> (0 \<le> str_find (ord CHR ''{'') (strip raw) \<and>
      str_find (ord CHR ''{'') (strip raw) < str_rfind (ord CHR ''}'') (strip raw) + 1)"
    using guard_iff_brace_pair [of "strip raw"] by blast
  show ?thesis
    using False g by (auto simp: parse_gemini_response_def Let_def)
qed

subsection \<open>The decoder step by step\<close>

declare parse_object.simps [simp del] parse_array.simps [simp del]
















subsection \<open>Stripping\<close>





subsection \<open>The response parser\<close>








text \<open>
  C8. The result of \<^verbatim>\<open>parse_gemini_response\<close> depends on the raw text only: it is the same
  in any two states of the world, and a second call after the first returns what the
  first returned.
\<close>

theorem parse_is_pure:
  "fst (parse_gemini_response raw w) = fst (parse_gemini_response raw w')
   \<and> fst (parse_gemini_response raw (snd (parse_gemini_response raw w))) =
       fst (parse_gemini_response raw w)"
proof (rule conjI)
  have same: "fst (parse_gemini_response raw a) = fst (parse_gemini_response raw b)" for a b
    unfolding parse_result [of raw a] parse_result [of raw b] ..
  show "fst (parse_gemini_response raw w) = fst (parse_gemini_response raw w')"
    by (rule same)
  show "fst (parse_gemini_response raw (snd (parse_gemini_response raw w))) =
      fst (parse_gemini_response raw w)"
    by (rule same)
qed



subsection \<open>Payloads inside prose\<close>





subsection \<open>Reading back a rendered structure\<close>































subsection \<open>Traces of the stages\<close>

lemma extract_pdf_text_nonempty: "fst (extract_pdf_text doc w) = Some text \<Longrightarrow> text \<noteq> []"
  by (auto simp: extract_pdf_text_def Let_def strip_def split: outcome.splits if_splits)

lemma trace_simps:
  "completion_calls (emit_event e w) =
     completion_calls w @ (case e of CallCompletion p \<Rightarrow> [p] | _ \<Rightarrow> [])"
  "parse_calls (emit_event e w) = parse_calls w @ (case e of CallParse r \<Rightarrow> [r] | _ \<Rightarrow> [])"
  "displayed (emit_event e w) = displayed w @ (case e of CallDisplay v \<Rightarrow> [v] | _ \<Rightarrow> [])"
  by (simp_all add: completion_calls_def parse_calls_def displayed_def emit_event_def)

lemma extract_pdf_text_trace:
  "completion_calls (snd (extract_pdf_text doc w)) = completion_calls w"
  "parse_calls (snd (extract_pdf_text doc w)) = parse_calls w"
  "displayed (snd (extract_pdf_text doc w)) = displayed w"
  by (simp_all add: extract_pdf_text_def Let_def trace_simps split: outcome.splits)

lemma get_gemini_response_result:
  "fst (get_gemini_response model prompt w) =
     (case model prompt of Raises \<Rightarrow> None | Returns text \<Rightarrow> Some text)"
  "completion_calls (snd (get_gemini_response model prompt w)) = completion_calls w @ [prompt]"
  "parse_calls (snd (get_gemini_response model prompt w)) = parse_calls w"
  "displayed (snd (get_gemini_response model prompt w)) = displayed w"
  by (simp_all add: get_gemini_response_def Let_def trace_simps split: outcome.splits)

lemma parse_gemini_response_trace:
  "completion_calls (snd (parse_gemini_response raw w)) = completion_calls w"
  "parse_calls (snd (parse_gemini_response raw w)) = parse_calls w @ [raw]"
  "displayed (snd (parse_gemini_response raw w)) = displayed w"
  by (auto simp: parse_gemini_response_def Let_def trace_simps split: sum.splits)

lemma display_results_trace:
  "completion_calls (display_results v w) = completion_calls w"
  "parse_calls (display_results v w) = parse_calls w"
  "displayed (display_results v w) = displayed w @ [v]"
  "\<not> has_key (ascii ''error'') v \<Longrightarrow> StTabs v \<in> set (display_results v w)"
  by (simp_all add: display_results_def Let_def trace_simps, simp add: emit_event_def)

text \<open>A run of the analysis whose extraction and completion both succeed.\<close>

lemma analyze_success:
  assumes "job_description \<noteq> []"
    and "fst (extract_pdf_text doc w) = Some resume_text"
    and "model (prompt_head @ resume_text @ prompt_middle @ job_description @ prompt_tail)
           = Returns raw"
    and "raw \<noteq> []"
    and "fst (parse_gemini_response raw w') = Inr v"
  obtains w3 where
    "analyze (Some doc) job_description model w =
       Inr (emit_event (LogInfo ''Analysis completed and displayed to user'')
              (display_results v w3))"
    and "displayed w3 = displayed w"
proof -
  let ?prompt = "prompt_head @ resume_text @ prompt_middle @ job_description @ prompt_tail"
  obtain w1 where e: "extract_pdf_text doc w = (Some resume_text, w1)"
    using assms(2) by (cases "extract_pdf_text doc w") auto
  have ne: "resume_text \<noteq> []" using assms(2) by (rule extract_pdf_text_nonempty)
  obtain w2 where g: "get_gemini_response model ?prompt w1 = (Some raw, w2)"
    using get_gemini_response_result(1) [of model ?prompt w1] assms(3)
    by (cases "get_gemini_response model ?prompt w1") auto
  let ?w3 = "emit_event (StMarkdown ''Resume Analysis Results'') w2"
  obtain w4 where p: "parse_gemini_response raw ?w3 = (Inr v, w4)"
    using assms(5) parse_result [of raw w'] parse_result [of raw ?w3]
    by (cases "parse_gemini_response raw ?w3") auto
  have "analyze (Some doc) job_description model w =
       Inr (emit_event (LogInfo ''Analysis completed and displayed to user'')
              (display_results v w4))"
    using assms(1,4) e ne g p
    by (simp add: analyze_def create_prompt_result Let_def)
  moreover have "displayed w4 = displayed w"
    using extract_pdf_text_trace(3) [of doc w] e
      get_gemini_response_result(4) [of model ?prompt w1] g
      parse_gemini_response_trace(3) [of raw ?w3] p
    by (simp add: trace_simps)
  ultimately show thesis using that by blast
qed

text \<open>
  C7. When the text between the outermost braces decodes, the parser returns the decoded
  dictionary as it is, whatever its keys; and a run of the pipeline whose backend
  returns such a text hands exactly that dictionary to the display, which renders it when
  it has no key \<^verbatim>\<open>error\<close>.
\<close>

theorem parse_returns_decoded_as_is:
  assumes "brace_pair (strip raw)" and "json_loads (payload (strip raw)) = Inr v"
  shows "fst (parse_gemini_response raw w) = Inr v
    \<and> (job_description \<noteq> [] \<longrightarrow> raw \<noteq> [] \<longrightarrow>
        fst (extract_pdf_text doc w) = Some resume_text \<longrightarrow>
        model (prompt_head @ resume_text @ prompt_middle @ job_description @ prompt_tail)
          = Returns raw \<longrightarrow>
        map_sum id displayed (analyze (Some doc) job_description model w)
          = Inr (displayed w @ [v])
        \<and> (\<not> has_key (ascii ''error'') v \<longrightarrow>
             map_sum id (\<lambda>w'. StTabs v \<in> set w') (analyze (Some doc) job_description model w)
               = Inr True))"
proof (intro conjI impI)
  show r: "fst (parse_gemini_response raw w) = Inr v"
    using assms by (simp add: parse_result)
  assume a: "job_description \<noteq> []" "raw \<noteq> []" "fst (extract_pdf_text doc w) = Some resume_text"
    "model (prompt_head @ resume_text @ prompt_middle @ job_description @ prompt_tail)
       = Returns raw"
  from analyze_success [where model = model, OF a(1) a(3) a(4) a(2) r] obtain w3 where
    an: "analyze (Some doc) job_description model w =
       Inr (emit_event (LogInfo ''Analysis completed and displayed to user'')
              (display_results v w3))"
    and d: "displayed w3 = displayed w"
    by blast
  show "map_sum id displayed (analyze (Some doc) job_description model w)
          = Inr (displayed w @ [v])"
    unfolding an by (simp add: trace_simps display_results_trace d)
  assume "\<not> has_key (ascii ''error'') v"
  then have "StTabs v \<in> set (display_results v w3)" by (rule display_results_trace(4))
  then show "map_sum id (\<lambda>w'. StTabs v \<in> set w') (analyze (Some doc) job_description model w)
               = Inr True"
    unfolding an by (simp add: emit_event_def)
qed

theorem parse_returns_decoded_as_is_witness:
  "brace_pair (strip scenario_A_reply)
   \<and> json_loads (payload (strip scenario_A_reply)) = Inr scenario_A_result
   \<and> fst (parse_gemini_response scenario_A_reply []) = Inr scenario_A_result
   \<and> map_sum id displayed
        (analyze (Some (Returns [Returns (ascii ''Python, SQL, 3 years experience'')]))
           (ascii ''Python, SQL, AWS'') (\<lambda>prompt. Returns scenario_A_reply) [])
       = Inr [scenario_A_result]
   \<and> map_sum id (\<lambda>w'. StTabs scenario_A_result \<in> set w')
        (analyze (Some (Returns [Returns (ascii ''Python, SQL, 3 years experience'')]))
           (ascii ''Python, SQL, AWS'') (\<lambda>prompt. Returns scenario_A_reply) [])
       = Inr True"
proof -
  let ?doc = "Returns [Returns (ascii ''Python, SQL, 3 years experience'')]"
  have a: "brace_pair (strip scenario_A_reply)" by code_simp
  have b: "json_loads (payload (strip scenario_A_reply)) = Inr scenario_A_result" by code_simp
  have c: "ascii ''Python, SQL, AWS'' \<noteq> []" by (simp add: ascii_def)
  have d: "scenario_A_reply \<noteq> []" by (simp add: scenario_A_reply_def ascii_def)
  have e: "fst (extract_pdf_text ?doc []) = Some (ascii ''Python, SQL, 3 years experience'')"
    by code_simp
  have f: "\<not> has_key (ascii ''error'') scenario_A_result" by code_simp
  have g: "displayed [] = []" by (simp add: displayed_def)
  from parse_returns_decoded_as_is [OF a b, where w = "[]"
      and job_description = "ascii ''Python, SQL, AWS''" and doc = ?doc
      and resume_text = "ascii ''Python, SQL, 3 years experience''"
      and model = "\<lambda>prompt. Returns scenario_A_reply"]
    a b c d e f g
  show ?thesis by simp
qed


subsection \<open>The pipeline\<close>

lemma analyze_extraction_failure:
  assumes "job_description \<noteq> []" and "fst (extract_pdf_text doc w) = None"
  shows "analyze (Some doc) job_description model w =
      Inr (emit_event (StError ''Could not extract text from the uploaded PDF'')
             (snd (extract_pdf_text doc w)))"
  using assms by (cases "extract_pdf_text doc w") (simp add: analyze_def)

lemma analyze_completion_failure:
  assumes "job_description \<noteq> []" and "fst (extract_pdf_text doc w) = Some resume_text"
    and "model (prompt_head @ resume_text @ prompt_middle @ job_description @ prompt_tail)
           = Raises \<or>
         model (prompt_head @ resume_text @ prompt_middle @ job_description @ prompt_tail)
           = Returns []"
  shows "analyze (Some doc) job_description model w =
      Inr (emit_event (StError ''Failed to get analysis from the AI model'')
             (snd (get_gemini_response model
                (prompt_head @ resume_text @ prompt_middle @ job_description @ prompt_tail)
                (snd (extract_pdf_text doc w)))))"
proof -
  let ?prompt = "prompt_head @ resume_text @ prompt_middle @ job_description @ prompt_tail"
  obtain w1 where e: "extract_pdf_text doc w = (Some resume_text, w1)"
    using assms(2) by (cases "extract_pdf_text doc w") auto
  have ne: "resume_text \<noteq> []" using assms(2) by (rule extract_pdf_text_nonempty)
  obtain r w2 where g: "get_gemini_response model ?prompt w1 = (r, w2)"
    by (cases "get_gemini_response model ?prompt w1")
  have "r = None \<or> r = Some []"
    using get_gemini_response_result(1) [of model ?prompt w1] g assms(3) by auto
  then show ?thesis
    using assms(1) e ne g by (auto simp: analyze_def create_prompt_result)
qed

text \<open>
  C4. The analysis is fail-fast. When the extraction fails, the run ends with the
  extraction error on the page, and neither the backend nor the parser has been called.
  When the extraction succeeds and the completion fails (the backend raises, or returns
  an empty text), the run ends with the completion error on the page after the one call
  to the backend, and the parser has not been called.
\<close>

theorem pipeline_fail_fast:
  assumes "job_description \<noteq> []"
  shows "(fst (extract_pdf_text doc w) = None \<longrightarrow>
           map_sum id (\<lambda>w'. (last w', completion_calls w', parse_calls w', displayed w'))
             (analyze (Some doc) job_description model w) =
           Inr (StError ''Could not extract text from the uploaded PDF'',
                completion_calls w, parse_calls w, displayed w))
       \<and> (fst (extract_pdf_text doc w) = Some resume_text \<longrightarrow>
           (model (prompt_head @ resume_text @ prompt_middle @ job_description @ prompt_tail)
              = Raises \<or>
            model (prompt_head @ resume_text @ prompt_middle @ job_description @ prompt_tail)
              = Returns []) \<longrightarrow>
           map_sum id (\<lambda>w'. (last w', completion_calls w', parse_calls w', displayed w'))
             (analyze (Some doc) job_description model w) =
           Inr (StError ''Failed to get analysis from the AI model'',
                completion_calls w @
                  [prompt_head @ resume_text @ prompt_middle @ job_description @ prompt_tail],
                parse_calls w, displayed w))"
proof (intro conjI impI)
  assume "fst (extract_pdf_text doc w) = None"
  then show "map_sum id (\<lambda>w'. (last w', completion_calls w', parse_calls w', displayed w'))
             (analyze (Some doc) job_description model w) =
           Inr (StError ''Could not extract text from the uploaded PDF'',
                completion_calls w, parse_calls w, displayed w)"
    using analyze_extraction_failure [OF assms, of doc w model]
    by (simp add: trace_simps extract_pdf_text_trace, simp add: emit_event_def)
next
  assume "fst (extract_pdf_text doc w) = Some resume_text"
    and "model (prompt_head @ resume_text @ prompt_middle @ job_description @ prompt_tail)
              = Raises \<or>
         model (prompt_head @ resume_text @ prompt_middle @ job_description @ prompt_tail)
              = Returns []"
  then show "map_sum id (\<lambda>w'. (last w', completion_calls w', parse_calls w', displayed w'))
             (analyze (Some doc) job_description model w) =
           Inr (StError ''Failed to get analysis from the AI model'',
                completion_calls w @
                  [prompt_head @ resume_text @ prompt_middle @ job_description @ prompt_tail],
                parse_calls w, displayed w)"
    using analyze_completion_failure [OF assms, of doc w resume_text model]
    by (simp add: trace_simps extract_pdf_text_trace get_gemini_response_result,
        simp add: emit_event_def)
qed

theorem pipeline_fail_fast_witness:
  "map_sum id (\<lambda>w'. (last w', completion_calls w', parse_calls w', displayed w'))
     (analyze (Some Raises) (ascii ''Python, SQL, AWS'') (\<lambda>prompt. Returns scenario_A_reply) [])
     = Inr (StError ''Could not extract text from the uploaded PDF'', [], [], [])
   \<and> map_sum id (\<lambda>w'. (last w', completion_calls w', parse_calls w', displayed w'))
       (analyze (Some (Returns [Returns (ascii ''Python'')])) (ascii ''Python, SQL, AWS'')
          (\<lambda>prompt. Raises) [])
     = Inr (StError ''Failed to get analysis from the AI model'',
            [prompt_head @ ascii ''Python'' @ prompt_middle @ ascii ''Python, SQL, AWS'' @
             prompt_tail], [], [])"
proof -
  have jd: "ascii ''Python, SQL, AWS'' \<noteq> []" by (simp add: ascii_def)
  have e1: "fst (extract_pdf_text Raises []) = None" by code_simp
  have e2: "fst (extract_pdf_text (Returns [Returns (ascii ''Python'')]) []) =
      Some (ascii ''Python'')" by code_simp
  have t: "completion_calls [] = []" "parse_calls [] = []" "displayed [] = []"
    by (simp_all add: completion_calls_def parse_calls_def displayed_def)
  from pipeline_fail_fast [OF jd, where doc = Raises and w = "[]"
      and model = "\<lambda>prompt. Returns scenario_A_reply"] e1 t
  have a: "map_sum id (\<lambda>w'. (last w', completion_calls w', parse_calls w', displayed w'))
     (analyze (Some Raises) (ascii ''Python, SQL, AWS'') (\<lambda>prompt. Returns scenario_A_reply) [])
     = Inr (StError ''Could not extract text from the uploaded PDF'', [], [], [])"
    by simp
  from pipeline_fail_fast [OF jd, where doc = "Returns [Returns (ascii ''Python'')]"
      and w = "[]" and resume_text = "ascii ''Python''" and model = "\<lambda>prompt. Raises"] e2 t
  have b: "map_sum id (\<lambda>w'. (last w', completion_calls w', parse_calls w', displayed w'))
       (analyze (Some (Returns [Returns (ascii ''Python'')])) (ascii ''Python, SQL, AWS'')
          (\<lambda>prompt. Raises) [])
     = Inr (StError ''Failed to get analysis from the AI model'',
            [prompt_head @ ascii ''Python'' @ prompt_middle @ ascii ''Python, SQL, AWS'' @
             prompt_tail], [], [])"
    by simp
  from a b show ?thesis ..
qed

end
